theory Spec2Isabelle
  imports Complex_Main
begin

unbundle bit_operations_syntax

section \<open>The Atlas kit driver: display, buttons, beeper and clock\<close>

text \<open>
  A shallow embedding of the class \<open>Atlas\<close> of \<open>atlas.py\<close> and \<open>starter/atlas.py\<close>.
  The methods \<open>write_num\<close>, \<open>display_brightness\<close>, \<open>display_clear\<close>, \<open>_register\<close> and
  \<open>_debounce\<close> are the same text in both files; \<open>write_hex\<close>, \<open>play_note\<close> with a
  duration, \<open>play_song\<close>, the \<open>hex\<close> flag of \<open>increment_num\<close> and \<open>decrement_num\<close> and
  \<open>_update_clock24\<close> are those of \<open>starter/atlas.py\<close>. Python integers are \<open>int\<close>,
  the object's fields are a record that every method takes and returns, and a raised
  exception is the outcome \<open>Raised\<close> paired with the state at the moment of the raise.
  Names that start with an underscore in the source are written without it.
\<close>

subsection \<open>Constants\<close>

definition DIGIT5 :: int where [simp]: "DIGIT5 = 0x6"
definition DECODE_MODE :: int where [simp]: "DECODE_MODE = 0x9"
definition INTENSITY :: int where [simp]: "INTENSITY = 0xA"
definition SCAN_LIMIT :: int where [simp]: "SCAN_LIMIT = 0xB"
definition SHUTDOWN :: int where [simp]: "SHUTDOWN = 0xC"
definition DP :: int where [simp]: "DP = 0x80"

definition MAX_VALUE_DEC :: int where [simp]: "MAX_VALUE_DEC = 999999"
definition MIN_VALUE_DEC :: int where [simp]: "MIN_VALUE_DEC = - 99999"
definition MAX_VALUE_HEX :: int where [simp]: "MAX_VALUE_HEX = 0xFFFFFF"
definition MIN_VALUE_HEX :: int where [simp]: "MIN_VALUE_HEX = 0x000000"
definition MAX_VALUE_DP :: int where [simp]: "MAX_VALUE_DP = 0b111111"
definition MIN_VALUE_DP :: int where [simp]: "MIN_VALUE_DP = 0b000000"

definition DEBOUNCE_SAMPLES :: nat where "DEBOUNCE_SAMPLES = 32"

text \<open>The two dictionaries, as maps: a key that is absent raises \<open>KeyError\<close> at the lookup.\<close>

definition DIGIT_DICT :: "nat \<rightharpoonup> int" where
  "DIGIT_DICT = [0 \<mapsto> 0x1, 1 \<mapsto> 0x2, 2 \<mapsto> 0x3, 3 \<mapsto> 0x4, 4 \<mapsto> 0x5, 5 \<mapsto> 0x6]"

definition HEX_TO_SEG :: "int \<rightharpoonup> int" where
  "HEX_TO_SEG =
     [0x0 \<mapsto> 0b1111110, 0x1 \<mapsto> 0b0110000, 0x2 \<mapsto> 0b1101101, 0x3 \<mapsto> 0b1111001,
      0x4 \<mapsto> 0b0110011, 0x5 \<mapsto> 0b1011011, 0x6 \<mapsto> 0b1011111, 0x7 \<mapsto> 0b1110000,
      0x8 \<mapsto> 0b1111111, 0x9 \<mapsto> 0b1111011, 0xA \<mapsto> 0b1110111, 0xB \<mapsto> 0b0011111,
      0xC \<mapsto> 0b1001110, 0xD \<mapsto> 0b0111101, 0xE \<mapsto> 0b1001111, 0xF \<mapsto> 0b1000111]"

subsection \<open>The state of the object\<close>

datatype error = ValueError string | KeyError

datatype outcome = Returned | Raised error

text \<open>
  What \<open>machine.Timer.init\<close> is given: the mode, the rate (\<open>freq=\<close> or \<open>period=\<close>) and
  the callback. The two callbacks of the tone channel are \<open>self.beeper_callback\<close> and the
  lambda of \<open>play_note\<close>, which calls \<open>self.beeper_timer.deinit()\<close>.
\<close>

datatype timer_mode = ONE_SHOT | PERIODIC

datatype timer_rate = Freq rat | Period int

datatype callback = Beeper_callback | Deinit_beeper_timer

record timer =
  mode :: timer_mode
  rate :: timer_rate
  callback :: callback

text \<open>The tuple that \<open>rtc.datetime()\<close> returns, by position.\<close>

record datetime =
  year :: int
  month :: int
  day :: int
  weekday :: int
  hours :: int
  minutes :: int
  seconds :: int
  subseconds :: int

text \<open>
  \<open>cs\<close> is the level of the chip-select pin and \<open>spi\<close> the frames \<open>[command, data]\<close>
  written to the bus so far, oldest first; \<open>beeper\<close> is the level of the sound pin;
  \<open>timers\<close> maps the number of a hardware timer to what it is armed with (\<open>Timer(2)\<close> is
  \<open>beeper_timer\<close>, \<open>Timer(0)\<close> the duration timer of \<open>play_note\<close>); \<open>rtc\<close> is what the
  real-time clock reads.
\<close>

record atlas =
  cs :: bool
  spi :: "(int \<times> int) list"
  current_num :: "int option"
  current_dp :: int
  beeper :: bool
  timers :: "nat \<rightharpoonup> timer"
  rtc :: datetime

text \<open>Sequencing of two statements: the second runs only when the first returned.\<close>

definition and_then :: "outcome \<times> atlas \<Rightarrow> (atlas \<Rightarrow> outcome \<times> atlas) \<Rightarrow> outcome \<times> atlas" where
  "and_then r f = (case r of (Returned, s) \<Rightarrow> f s | (Raised e, s) \<Rightarrow> (Raised e, s))"

subsection \<open>The register interface and the display\<close>

text \<open>
  \<open>_register\<close>: chip select low, the two bytes, chip select high. \<open>bytearray\<close> raises
  \<open>ValueError\<close> on a value outside \<open>range(256)\<close>, after the chip select went low; the
  methods below call \<open>_register\<close> with bytes only.
\<close>

definition register :: "atlas \<Rightarrow> int \<Rightarrow> int \<Rightarrow> outcome \<times> atlas" where
  "register s command data =
     (let s1 = s\<lparr>cs := False\<rparr> in
      if 0 \<le> command \<and> command < 256 \<and> 0 \<le> data \<and> data < 256
      then (Returned, s1\<lparr>spi := spi s1 @ [(command, data)], cs := True\<rparr>)
      else (Raised (ValueError ''byte must be in range(0, 256)''), s1))"

definition display_brightness :: "atlas \<Rightarrow> int \<Rightarrow> outcome \<times> atlas" where
  "display_brightness s value =
     (if 0 \<le> value \<and> value \<le> 15 then register s INTENSITY value
      else (Raised (ValueError ''Brightness out of range''), s))"

text \<open>The loop \<open>for i in range(6): self._register(_DIGIT_DICT[i], 0x0F)\<close>.\<close>

fun clear_digits :: "nat list \<Rightarrow> atlas \<Rightarrow> outcome \<times> atlas" where
  "clear_digits [] s = (Returned, s)"
| "clear_digits (i # rest) s =
     and_then
       (case DIGIT_DICT i of
          None \<Rightarrow> (Raised KeyError, s)
        | Some digit \<Rightarrow> register s digit 0x0F)
       (clear_digits rest)"

definition display_clear :: "atlas \<Rightarrow> outcome \<times> atlas" where
  "display_clear s =
     and_then (register s DECODE_MODE 0xFF) (\<lambda>s.
     and_then (clear_digits [0..<6] s) (\<lambda>s.
       (Returned, s\<lparr>current_num := None\<rparr>)))"

text \<open>
  The digit loop of \<open>write_num\<close>, over the positions \<open>range(6)\<close> or \<open>range(5)\<close>:
  \<open>value % 10\<close> with the decimal point OR'd in when \<open>dp & 1\<close>, then \<open>dp >> 1\<close> and
  \<open>value // 10\<close>.
\<close>

fun write_digits :: "nat list \<Rightarrow> int \<Rightarrow> int \<Rightarrow> atlas \<Rightarrow> outcome \<times> atlas" where
  "write_digits [] value dp s = (Returned, s)"
| "write_digits (i # rest) value dp s =
     (let current_value = value mod 10 in
      and_then
        (case DIGIT_DICT i of
           None \<Rightarrow> (Raised KeyError, s)
         | Some digit \<Rightarrow>
             if dp AND 1 \<noteq> 0 then register s digit (current_value OR DP)
             else register s digit current_value)
        (write_digits rest (value div 10) (drop_bit 1 dp)))"

definition write_num :: "atlas \<Rightarrow> int \<Rightarrow> int \<Rightarrow> outcome \<times> atlas" where
  "write_num s value dp =
     and_then (register s DECODE_MODE 0xFF) (\<lambda>s.
       if (0 \<le> value \<and> value \<le> MAX_VALUE_DEC) \<and> (MIN_VALUE_DP \<le> dp \<and> dp \<le> MAX_VALUE_DP)
       then write_digits [0..<6] value dp (s\<lparr>current_num := Some value, current_dp := dp\<rparr>)
       else if (0 > value \<and> value \<ge> MIN_VALUE_DEC) \<and> (MIN_VALUE_DP \<le> dp \<and> dp \<le> MAX_VALUE_DP)
       then and_then (register (s\<lparr>current_num := Some value, current_dp := dp\<rparr>) DIGIT5 0xA)
              (write_digits [0..<5] (- value) dp)
       else (Raised (ValueError ''Value out of range''), s))"

text \<open>The digit loop of \<open>write_hex\<close>: the segment pattern of \<open>value % 16\<close>, then \<open>value // 16\<close>.\<close>

fun write_hex_digits :: "nat list \<Rightarrow> int \<Rightarrow> atlas \<Rightarrow> outcome \<times> atlas" where
  "write_hex_digits [] value s = (Returned, s)"
| "write_hex_digits (i # rest) value s =
     and_then
       (case DIGIT_DICT i of
          None \<Rightarrow> (Raised KeyError, s)
        | Some digit \<Rightarrow>
            (case HEX_TO_SEG (value mod 16) of
               None \<Rightarrow> (Raised KeyError, s)
             | Some seg \<Rightarrow> register s digit seg))
       (write_hex_digits rest (value div 16))"

definition write_hex :: "atlas \<Rightarrow> int \<Rightarrow> outcome \<times> atlas" where
  "write_hex s value =
     and_then (register s DECODE_MODE 0x0) (\<lambda>s.
       if 0x0 \<le> value \<and> value \<le> MAX_VALUE_HEX
       then write_hex_digits [0..<6] value (s\<lparr>current_num := Some value\<rparr>)
       else (Raised (ValueError ''Value out of range''), s))"

subsection \<open>Increment and decrement\<close>

text \<open>
  \<open>n'\<close> is \<open>self.current_num\<close> after the conditional assignment of \<open>-1\<close> (or \<open>1\<close>), which
  is stored before the write is attempted.
\<close>

definition increment_num :: "atlas \<Rightarrow> bool \<Rightarrow> outcome \<times> atlas" where
  "increment_num s hex =
     (case current_num s of
        None \<Rightarrow> (Raised (ValueError ''No value to increment''), s)
      | Some n \<Rightarrow>
          if hex then
            (let n' = (if n + 1 > MAX_VALUE_HEX then - 1 else n);
                 s' = s\<lparr>current_num := Some n'\<rparr>
             in write_hex s' (n' + 1))
          else
            (let n' = (if n + 1 > MAX_VALUE_DEC then - 1 else n);
                 s' = s\<lparr>current_num := Some n'\<rparr>
             in write_num s' (n' + 1) (current_dp s')))"

definition decrement_num :: "atlas \<Rightarrow> bool \<Rightarrow> outcome \<times> atlas" where
  "decrement_num s hex =
     (case current_num s of
        None \<Rightarrow> (Raised (ValueError ''No value to decrement''), s)
      | Some n \<Rightarrow>
          if hex then
            (let n' = (if n - 1 < MIN_VALUE_HEX then 1 else n);
                 s' = s\<lparr>current_num := Some n'\<rparr>
             in write_hex s' (n' - 1))
          else
            (let n' = (if n - 1 < MIN_VALUE_DEC then 1 else n);
                 s' = s\<lparr>current_num := Some n'\<rparr>
             in write_num s' (n' - 1) (current_dp s')))"

subsection \<open>The beeper and its timers\<close>

text \<open>\<open>beeper_callback\<close> is \<open>toggle_led(self.beeper)\<close>: the pin is set to the negation of its level.\<close>

definition beeper_callback :: "atlas \<Rightarrow> atlas" where
  "beeper_callback s = s\<lparr>beeper := \<not> beeper s\<rparr>"

definition timer_init :: "nat \<Rightarrow> timer \<Rightarrow> atlas \<Rightarrow> atlas" where
  "timer_init n t s = s\<lparr>timers := (timers s)(n \<mapsto> t)\<rparr>"

definition timer_deinit :: "nat \<Rightarrow> atlas \<Rightarrow> atlas" where
  "timer_deinit n s = s\<lparr>timers := (timers s)(n := None)\<rparr>"

definition play_note :: "atlas \<Rightarrow> rat \<Rightarrow> int \<Rightarrow> atlas" where
  "play_note s freq duration =
     timer_init 0 \<lparr>mode = ONE_SHOT, rate = Period duration, callback = Deinit_beeper_timer\<rparr>
       (timer_init 2 \<lparr>mode = PERIODIC, rate = Freq freq, callback = Beeper_callback\<rparr> s)"

text \<open>
  \<open>stop_note\<close> of \<open>atlas.py\<close>, where the timer of the tone is \<open>Timer(2)\<close> as well: the
  timer is disarmed and the pin is set to 1, the level it is given at start-up there.
\<close>

definition stop_note :: "atlas \<Rightarrow> atlas" where
  "stop_note s = (timer_deinit 2 s)\<lparr>beeper := True\<rparr>"

fun play_song :: "atlas \<Rightarrow> (rat \<times> int) list \<Rightarrow> atlas" where
  "play_song s [] = s"
| "play_song s (note # notes) = play_song (play_note s (fst note) (snd note)) notes"

text \<open>
  The states in which the loop of \<open>play_song\<close> calls \<open>play_note\<close>, one for each pair
  in order. The body of the loop is the call alone, so every call after the first is made
  in the state that the call before it returned.
\<close>

fun play_song_calls :: "atlas \<Rightarrow> (rat \<times> int) list \<Rightarrow> atlas list" where
  "play_song_calls s [] = []"
| "play_song_calls s (note # notes) = s # play_song_calls (play_note s (fst note) (snd note)) notes"

text \<open>
  The firing of a hardware timer, as \<open>machine.Timer\<close> documents it: an armed timer runs
  its callback, and a one-shot timer is disarmed by its firing; a timer that is not armed
  does nothing.
\<close>

fun run_callback :: "callback \<Rightarrow> atlas \<Rightarrow> atlas" where
  "run_callback Beeper_callback s = beeper_callback s"
| "run_callback Deinit_beeper_timer s = timer_deinit 2 s"

definition timer_fire :: "nat \<Rightarrow> atlas \<Rightarrow> atlas" where
  "timer_fire n s =
     (case timers s n of
        None \<Rightarrow> s
      | Some t \<Rightarrow>
          run_callback (callback t) (if mode t = ONE_SHOT then timer_deinit n s else s))"

subsection \<open>The clock\<close>

text \<open>
  \<open>str\<close> of an integer and \<open>int\<close> of a string. \<open>int_of_str\<close> reads an optional sign and
  decimal digits and is \<open>None\<close> where \<open>int()\<close> raises \<open>ValueError\<close>; the blanks and
  underscores that Python also accepts do not occur in what \<open>str\<close> writes.
\<close>

definition digit_char :: "nat \<Rightarrow> char" where
  "digit_char d = ''0123456789'' ! d"

function str_nat :: "nat \<Rightarrow> string" where
  "str_nat n = (if n < 10 then [digit_char n] else str_nat (n div 10) @ [digit_char (n mod 10)])"
  by pat_completeness auto
termination
  by (relation "measure id") auto

definition str :: "int \<Rightarrow> string" where
  "str n = (if n < 0 then CHR ''-'' # str_nat (nat (- n)) else str_nat (nat n))"

definition digit_val :: "char \<rightharpoonup> nat" where
  "digit_val = map_of
     [(CHR ''0'', 0), (CHR ''1'', 1), (CHR ''2'', 2), (CHR ''3'', 3), (CHR ''4'', 4),
      (CHR ''5'', 5), (CHR ''6'', 6), (CHR ''7'', 7), (CHR ''8'', 8), (CHR ''9'', 9)]"

fun int_digits :: "string \<Rightarrow> nat \<Rightarrow> nat option" where
  "int_digits [] acc = Some acc"
| "int_digits (c # rest) acc =
     (case digit_val c of None \<Rightarrow> None | Some d \<Rightarrow> int_digits rest (acc * 10 + d))"

definition int_of_str :: "string \<Rightarrow> int option" where
  "int_of_str text =
     (case text of
        [] \<Rightarrow> None
      | c # rest \<Rightarrow>
          if c = CHR ''-'' then
            (if rest = [] then None else map_option (\<lambda>n. - int n) (int_digits rest 0))
          else if c = CHR ''+'' then
            (if rest = [] then None else map_option int (int_digits rest 0))
          else map_option int (int_digits text 0))"

text \<open>The string \<open>time_str\<close> that \<open>_update_clock24\<close> builds from the three fields.\<close>

definition clock24_str :: "int \<Rightarrow> int \<Rightarrow> int \<Rightarrow> string" where
  "clock24_str h m sec =
     (let time_str = '''';
          time_str = (if h < 10 then time_str @ ''0'' else time_str);
          time_str = time_str @ str h;
          time_str = (if m < 10 then time_str @ ''0'' else time_str);
          time_str = time_str @ str m;
          time_str = (if sec < 10 then time_str @ ''0'' else time_str);
          time_str = time_str @ str sec
      in time_str)"

definition update_clock24 :: "atlas \<Rightarrow> outcome \<times> atlas" where
  "update_clock24 s =
     (let current_time = rtc s;
          time_str = clock24_str (hours current_time) (minutes current_time) (seconds current_time)
      in case int_of_str time_str of
           None \<Rightarrow> (Raised (ValueError ''invalid literal for int()''), s)
         | Some n \<Rightarrow> write_num s n 0b010100)"

definition set_time :: "atlas \<Rightarrow> int \<Rightarrow> int \<Rightarrow> int \<Rightarrow> atlas" where
  "set_time s hour minute second =
     s\<lparr>rtc := \<lparr>year = 2019, month = 1, day = 1, weekday = 0,
                hours = hour, minutes = minute, seconds = second, subseconds = 0\<rparr>\<rparr>"

subsection \<open>Debouncing\<close>

text \<open>
  A button is the sequence of levels its pin shows: \<open>button k\<close> is what the \<open>k\<close>-th call
  of \<open>button.value()\<close> returns, counted from 0. Every pass of the loop calls
  \<open>button.value()\<close> twice, once for \<open>flag\<close> and once for the test. The result is the value
  returned together with the number of calls made.
\<close>

fun debounce_loop :: "nat \<Rightarrow> (nat \<Rightarrow> bool) \<Rightarrow> nat \<Rightarrow> bool \<Rightarrow> bool \<times> nat" where
  "debounce_loop 0 button k flag = (\<not> flag, k)"
| "debounce_loop (Suc n) button k flag =
     (let flag = button k in
      if button (k + 1) then (\<not> flag, k + 2)
      else debounce_loop n button (k + 2) flag)"

definition debounce :: "(nat \<Rightarrow> bool) \<Rightarrow> bool \<times> nat" where
  "debounce button = debounce_loop DEBOUNCE_SAMPLES button 0 False"

subsection \<open>Initialisation\<close>

text \<open>
  \<open>__init__\<close> of \<open>starter/atlas.py\<close>: the fields, the five set-up frames and
  \<open>display_clear\<close>. The level of the beeper pin, which the constructor does not set, and
  the reading of the clock are parameters.
\<close>

definition init :: "bool \<Rightarrow> datetime \<Rightarrow> outcome \<times> atlas" where
  "init level now =
     (let s = \<lparr>cs = True, spi = [], current_num = None, current_dp = 0b000000,
                beeper = level, timers = Map.empty, rtc = now\<rparr>
      in and_then (register s SHUTDOWN 0) (\<lambda>s.
         and_then (register s SCAN_LIMIT 7) (\<lambda>s.
         and_then (register s DECODE_MODE 0xFF) (\<lambda>s.
         and_then (register s INTENSITY 0xa) (\<lambda>s.
         and_then (register s SHUTDOWN 1) display_clear)))))"

text \<open>
  The device of the examples: the object as the constructor leaves it, with the beeper
  pin high and the clock reading 07:05:09.
\<close>

definition booted :: atlas where
  "booted = snd (init True \<lparr>year = 2019, month = 1, day = 1, weekday = 0,
                            hours = 7, minutes = 5, seconds = 9, subseconds = 0\<rparr>)"

section \<open>Properties\<close>

subsection \<open>Helper facts\<close>

lemma and_then_Returned [simp]: "and_then (Returned, s) f = f s"
  by (simp add: and_then_def)

lemma and_then_Raised [simp]: "and_then (Raised e, s) f = (Raised e, s)"
  by (simp add: and_then_def)

lemma register_ok:
  "0 \<le> command \<Longrightarrow> command < 256 \<Longrightarrow> 0 \<le> data \<Longrightarrow> data < 256 \<Longrightarrow>
   register s command data = (Returned, s\<lparr>cs := True, spi := spi s @ [(command, data)]\<rparr>)"
  by (simp add: register_def)

lemma DIGIT_DICT_lt6: "i < 6 \<Longrightarrow> DIGIT_DICT i = Some (int i + 1)"
proof -
  assume "i < 6"
  then have "i = 0 \<or> i = 1 \<or> i = 2 \<or> i = 3 \<or> i = 4 \<or> i = 5" by arith
  then show ?thesis by (auto simp: DIGIT_DICT_def)
qed

lemma digit_cases:
  assumes "0 \<le> (d::int)" "d < 10"
  shows "d = 0 \<or> d = 1 \<or> d = 2 \<or> d = 3 \<or> d = 4 \<or> d = 5 \<or> d = 6 \<or> d = 7 \<or> d = 8 \<or> d = 9"
  using assms by arith

lemma digit_or_DP:
  assumes "0 \<le> (d::int)" "d < 10" shows "d OR 128 = d + 128"
  using digit_cases[OF assms] by auto

lemma digit_readback:
  assumes "0 \<le> (d::int)" "d < 10"
  shows "(d OR 128) AND 127 = d" "d AND 127 = d" "(d OR 128) AND 128 = 128" "d AND 128 = 0"
  using digit_cases[OF assms] by auto

lemma div_pow10_Suc: "(v::int) div 10 ^ j div 10 = v div 10 ^ Suc j"
proof -
  have "v div 10 ^ Suc j = v div (10 ^ j * 10)" by (simp add: mult.commute)
  also have "\<dots> = v div 10 ^ j div 10" by (rule zdiv_zmult2_eq) simp
  finally show ?thesis by simp
qed

lemma decimal_expansion:
  "(\<Sum>i<n. (v div 10 ^ i mod 10) * 10 ^ i) + (v div 10 ^ n) * 10 ^ n = (v::int)"
proof (induction n)
  case 0
  show ?case by simp
next
  case (Suc n)
  have "v div 10 ^ n = v div 10 ^ n div 10 * 10 + v div 10 ^ n mod 10"
    by simp
  then have "v div 10 ^ n = v div 10 ^ Suc n * 10 + v div 10 ^ n mod 10"
    by (simp only: div_pow10_Suc)
  then have "(v div 10 ^ n) * 10 ^ n = (v div 10 ^ Suc n * 10 + v div 10 ^ n mod 10) * 10 ^ n"
    by (rule arg_cong)
  then have "(v div 10 ^ n mod 10) * 10 ^ n + v div 10 ^ Suc n * 10 ^ Suc n = (v div 10 ^ n) * 10 ^ n"
    by (simp add: algebra_simps)
  with Suc show ?case by simp
qed

text \<open>
  The digit loop from position \<open>j\<close> on, entered with the value and the mask already shifted
  \<open>j\<close> times: it returns, and appends one frame per position.
\<close>

lemma write_digits_upt:
  "n \<le> 6 \<Longrightarrow>
   write_digits [j..<n] (value div 10 ^ j) (drop_bit j dp) s =
     (Returned, s\<lparr>cs := (if j < n then True else cs s),
        spi := spi s @ map (\<lambda>i. (int i + 1,
                 if bit dp i then value div 10 ^ i mod 10 OR DP else value div 10 ^ i mod 10)) [j..<n]\<rparr>)"
proof (induction "n - j" arbitrary: j s)
  case 0
  then show ?case by simp
next
  case (Suc k)
  then have jn: "j < n" and j6: "j < 6" by auto
  have k: "k = n - Suc j" using Suc by auto
  let ?d = "value div 10 ^ j mod 10"
  have d: "0 \<le> ?d" "?d < 10" by auto
  have dp1: "(drop_bit j dp AND 1 \<noteq> 0) = bit dp j"
    by (simp add: and_one_eq bit_iff_odd_drop_bit mod_2_eq_odd)
  have drop: "drop_bit 1 (drop_bit j dp) = drop_bit (Suc j) dp"
    by (simp add: drop_bit_drop_bit)
  show ?case
    using Suc.hyps(1)[OF k Suc.prems, of "s\<lparr>cs := True, spi := spi s @ [(int j + 1, if bit dp j then ?d OR DP else ?d)]\<rparr>"]
    using jn j6 d
    apply (subst upt_conv_Cons[OF jn])
    apply (subst upt_conv_Cons[OF jn])
    apply (simp only: write_digits.simps Let_def DIGIT_DICT_lt6[OF j6] option.case dp1 div_pow10_Suc drop)
    apply (auto simp: register_ok digit_or_DP)
    done
qed

lemma write_digits_from0:
  "n \<le> 6 \<Longrightarrow> 0 < n \<Longrightarrow>
   write_digits [0..<n] value dp s =
     (Returned, s\<lparr>cs := True,
        spi := spi s @ map (\<lambda>i. (int i + 1,
                 if bit dp i then value div 10 ^ i mod 10 OR DP else value div 10 ^ i mod 10)) [0..<n]\<rparr>)"
  using write_digits_upt[of n 0 "value" dp s] by simp

lemma data_low:
  "(if b then (v::int) div 10 ^ i mod 10 OR DP else v div 10 ^ i mod 10) AND 0x7F = v div 10 ^ i mod 10"
proof -
  have "0 \<le> v div 10 ^ i mod 10" "v div 10 ^ i mod 10 < 10" by simp_all
  from digit_readback(1,2)[OF this] show ?thesis by (cases b) simp_all
qed

lemma data_flag:
  "((if b then (v::int) div 10 ^ i mod 10 OR DP else v div 10 ^ i mod 10) AND DP \<noteq> 0) = b"
proof -
  have "0 \<le> v div 10 ^ i mod 10" "v div 10 ^ i mod 10 < 10" by simp_all
  from digit_readback(3,4)[OF this] show ?thesis by (cases b) simp_all
qed

lemma frames_sum:
  assumes "0 \<le> v" "v < 10 ^ n"
  shows "(\<Sum>i<n. (snd (map (\<lambda>i. (int i + 1,
                 if bit dp i then v div 10 ^ i mod 10 OR DP else v div 10 ^ i mod 10)) [0..<n] ! i) AND 0x7F) * 10 ^ i) = v"
proof -
  have "(\<Sum>i<n. (snd (map (\<lambda>i. (int i + 1,
                 if bit dp i then v div 10 ^ i mod 10 OR DP else v div 10 ^ i mod 10)) [0..<n] ! i) AND 0x7F) * 10 ^ i)
        = (\<Sum>i<n. (v div 10 ^ i mod 10) * 10 ^ i)"
  proof (rule sum.cong)
    fix i assume "i \<in> {..<n}"
    then have i: "i < n" by simp
    show "(snd (map (\<lambda>i. (int i + 1,
                 if bit dp i then v div 10 ^ i mod 10 OR DP else v div 10 ^ i mod 10)) [0..<n] ! i) AND 0x7F) * 10 ^ i
          = (v div 10 ^ i mod 10) * 10 ^ i"
      using i by (simp only: nth_map_upt[of i n 0] minus_nat.diff_0 add_0 snd_conv data_low)
  qed simp
  also have "\<dots> = v"
    using decimal_expansion[where v = v and n = n] assms by simp
  finally show ?thesis .
qed

lemma frames_flag:
  assumes "i < n"
  shows "(snd (map (\<lambda>i. (int i + 1,
                 if bit dp i then v div 10 ^ i mod 10 OR DP else v div 10 ^ i mod 10)) [0..<n] ! i) AND DP \<noteq> 0) = bit dp i"
  using assms by (simp only: nth_map_upt[of i n 0] minus_nat.diff_0 add_0 snd_conv data_flag)

lemma write_num_nonneg_eq:
  assumes "0 \<le> value" "value \<le> 999999" "0 \<le> dp" "dp \<le> 0b111111"
  shows "write_num s value dp =
      (Returned, s\<lparr>cs := True, spi := spi s @ (DECODE_MODE, 0xFF) #
          map (\<lambda>i. (int i + 1,
                 if bit dp i then value div 10 ^ i mod 10 OR DP else value div 10 ^ i mod 10)) [0..<6],
                   current_num := Some value, current_dp := dp\<rparr>)"
  using assms by (simp add: write_num_def register_ok write_digits_from0 del: upt_Suc)

lemma write_num_negative_eq:
  assumes "- 99999 \<le> value" "value \<le> - 1" "0 \<le> dp" "dp \<le> 0b111111"
  shows "write_num s value dp =
      (Returned, s\<lparr>cs := True, spi := spi s @ (DECODE_MODE, 0xFF) # (DIGIT5, 0xA) #
          map (\<lambda>i. (int i + 1,
                 if bit dp i then (- value) div 10 ^ i mod 10 OR DP
                 else (- value) div 10 ^ i mod 10)) [0..<5],
                   current_num := Some value, current_dp := dp\<rparr>)"
  using assms by (simp add: write_num_def register_ok write_digits_from0 del: upt_Suc)

lemma write_num_raise_eq:
  assumes "value > 999999 \<or> value < - 99999 \<or> dp < 0 \<or> dp > 0b111111"
  shows "write_num s value dp =
           (Raised (ValueError ''Value out of range''),
            s\<lparr>cs := True, spi := spi s @ [(DECODE_MODE, 0xFF)]\<rparr>)"
  using assms by (auto simp: write_num_def register_ok)

text \<open>A write that returns was given a mask within bounds, and has stored it.\<close>

lemma write_num_Returned_dp:
  assumes "write_num s value dp = (Returned, s')"
  shows "0 \<le> dp \<and> dp \<le> 0b111111 \<and> current_dp s' = dp"
proof -
  consider (nonneg) "0 \<le> value" "value \<le> 999999" "0 \<le> dp" "dp \<le> 0b111111"
    | (neg) "- 99999 \<le> value" "value \<le> - 1" "0 \<le> dp" "dp \<le> 0b111111"
    | (out) "value > 999999 \<or> value < - 99999 \<or> dp < 0 \<or> dp > 0b111111"
    by linarith
  then show ?thesis
  proof cases
    case nonneg
    from write_num_nonneg_eq[OF this, of s] assms show ?thesis using nonneg by auto
  next
    case neg
    from write_num_negative_eq[OF this, of s] assms show ?thesis using neg by auto
  next
    case out
    from write_num_raise_eq[OF this, of s] assms show ?thesis by simp
  qed
qed

text \<open>The frames of \<open>display_clear\<close> and the device of the examples, written out.\<close>

lemma clear_digits_upt:
  "n \<le> 6 \<Longrightarrow>
   clear_digits [j..<n] s =
     (Returned, s\<lparr>cs := (if j < n then True else cs s),
        spi := spi s @ map (\<lambda>i. (int i + 1, 0x0F)) [j..<n]\<rparr>)"
proof (induction "n - j" arbitrary: j s)
  case 0
  then show ?case by simp
next
  case (Suc k)
  then have jn: "j < n" and j6: "j < 6" by auto
  have k: "k = n - Suc j" using Suc by auto
  show ?case
    using Suc.hyps(1)[OF k Suc.prems, of "s\<lparr>cs := True, spi := spi s @ [(int j + 1, 0x0F)]\<rparr>"]
    using jn j6
    apply (subst upt_conv_Cons[OF jn])
    apply (subst upt_conv_Cons[OF jn])
    apply (simp only: clear_digits.simps DIGIT_DICT_lt6[OF j6] option.case)
    apply (auto simp: register_ok)
    done
qed

lemma upt_6: "[0..<6] = [0, 1, 2, 3, 4, 5]" and upt_5: "[0..<5] = [0, 1, 2, 3, 4]"
  by (simp_all add: upt_rec)

lemma display_clear_eq:
  "display_clear s =
     (Returned, s\<lparr>cs := True,
        spi := spi s @ [(9, 0xFF), (1, 0x0F), (2, 0x0F), (3, 0x0F), (4, 0x0F), (5, 0x0F), (6, 0x0F)],
        current_num := None\<rparr>)"
  using clear_digits_upt[of 6 0]
  by (simp add: display_clear_def register_ok upt_6)

lemma booted_eq:
  "booted = \<lparr>cs = True,
     spi = [(12, 0), (11, 7), (9, 0xFF), (10, 10), (12, 1),
            (9, 0xFF), (1, 0x0F), (2, 0x0F), (3, 0x0F), (4, 0x0F), (5, 0x0F), (6, 0x0F)],
     current_num = None, current_dp = 0, beeper = True, timers = Map.empty,
     rtc = \<lparr>year = 2019, month = 1, day = 1, weekday = 0,
            hours = 7, minutes = 5, seconds = 9, subseconds = 0\<rparr>\<rparr>"
  by (simp add: booted_def init_def register_ok display_clear_eq)

subsection \<open>Decimal writes\<close>

text \<open>
  Claim C1. For every value in \<open>[0, 999999]\<close> and every mask in \<open>[0, 0b111111]\<close>,
  \<open>write_num\<close> returns, stores the value and the mask, and writes, after the decode-mode
  frame, six digit frames at the positions 0 to 5 in this order (commands 1 to 6): frame
  \<open>i\<close> carries the digit \<open>(value div 10 ^ i) mod 10\<close>, with \<open>0x80\<close> OR'd in exactly
  when bit \<open>i\<close> of the mask is set. The low seven bits of the six data bytes, weighted by
  the powers of ten, give back the value, and bit \<open>0x80\<close> of frame \<open>i\<close> is bit \<open>i\<close> of
  the mask.
\<close>

theorem write_num_nonneg:
  assumes "0 \<le> value" "value \<le> 999999" "0 \<le> dp" "dp \<le> 0b111111"
  shows "let frames = map (\<lambda>i. (int i + 1,
                 if bit dp i then value div 10 ^ i mod 10 OR DP else value div 10 ^ i mod 10)) [0..<6]
         in write_num s value dp =
              (Returned, s\<lparr>cs := True, spi := spi s @ (DECODE_MODE, 0xFF) # frames,
                           current_num := Some value, current_dp := dp\<rparr>)
            \<and> (\<Sum>i<6. (snd (frames ! i) AND 0x7F) * 10 ^ i) = value
            \<and> (\<forall>i<6. (snd (frames ! i) AND DP \<noteq> 0) = bit dp i)"
proof -
  have v: "value < 10 ^ 6" using assms by simp
  show ?thesis
    unfolding Let_def
    using write_num_nonneg_eq[OF assms, of s] frames_sum[OF assms(1) v, of dp]
      frames_flag[of _ 6 dp "value"] by blast
qed

text \<open>The example \<open>write_num(123, 0b000010)\<close>: the digits 3, 2 with its point, 1, 0, 0, 0.\<close>

theorem write_num_nonneg_witness:
  "write_num booted 123 0b000010 =
     (Returned, booted\<lparr>cs := True,
        spi := spi booted @ [(9, 0xFF), (1, 3), (2, 0x82), (3, 1), (4, 0), (5, 0), (6, 0)],
        current_num := Some 123, current_dp := 0b000010\<rparr>)"
  using write_num_nonneg[of 123 "0b000010" booted]
  by (simp add: Let_def upt_6 bit_numeral_simps)

text \<open>
  Claim C5. For every value in \<open>[-99999, -1]\<close> and every mask in \<open>[0, 0b111111]\<close>,
  \<open>write_num\<close> returns, stores the value and the mask, and writes, after the decode-mode
  frame, the minus glyph \<open>0xA\<close> at digit position 5 (command 6) and exactly five digit
  frames at the positions 0 to 4, which carry the digits of \<open>- value\<close>, least significant
  first: read back, they give \<open>\<bar>value\<bar>\<close>.
\<close>

theorem write_num_negative:
  assumes "- 99999 \<le> value" "value \<le> - 1" "0 \<le> dp" "dp \<le> 0b111111"
  shows "let frames = map (\<lambda>i. (int i + 1,
                 if bit dp i then (- value) div 10 ^ i mod 10 OR DP
                 else (- value) div 10 ^ i mod 10)) [0..<5]
         in write_num s value dp =
              (Returned, s\<lparr>cs := True,
                           spi := spi s @ (DECODE_MODE, 0xFF) # (DIGIT5, 0xA) # frames,
                           current_num := Some value, current_dp := dp\<rparr>)
            \<and> length frames = 5
            \<and> (\<Sum>i<5. (snd (frames ! i) AND 0x7F) * 10 ^ i) = \<bar>value\<bar>"
proof -
  have v: "0 \<le> - value" "- value < 10 ^ 5" "\<bar>value\<bar> = - value" using assms by simp_all
  show ?thesis
    unfolding Let_def v(3)
    using write_num_negative_eq[OF assms, of s] frames_sum[OF v(1) v(2), of dp] by simp
qed

text \<open>The example \<open>write_num(-45, 0b000001)\<close>: the minus glyph, then 5 with its point, 4, 0, 0, 0.\<close>

theorem write_num_negative_witness:
  "write_num booted (- 45) 0b000001 =
     (Returned, booted\<lparr>cs := True,
        spi := spi booted @ [(9, 0xFF), (6, 0xA), (1, 0x85), (2, 4), (3, 0), (4, 0), (5, 0)],
        current_num := Some (- 45), current_dp := 0b000001\<rparr>)"
  using write_num_negative[of "- 45" "0b000001" booted]
  by (simp add: Let_def upt_5 bit_numeral_simps)

text \<open>
  Claim C2, as the code has it. \<open>write_num\<close> writes the decode-mode frame before it
  tests its arguments. When the value or the mask is out of bounds it raises
  \<open>ValueError\<close> after this one register write: no digit frame is written, and the stored
  number and the stored mask are left as they were.
\<close>

theorem write_num_out_of_range:
  assumes "value > 999999 \<or> value < - 99999 \<or> dp < 0 \<or> dp > 0b111111"
  shows "write_num s value dp =
           (Raised (ValueError ''Value out of range''),
            s\<lparr>cs := True, spi := spi s @ [(DECODE_MODE, 0xFF)]\<rparr>)
         \<and> current_num (snd (write_num s value dp)) = current_num s
         \<and> current_dp (snd (write_num s value dp)) = current_dp s"
  using write_num_raise_eq[OF assms, of s] by simp

theorem write_num_out_of_range_witness:
  "write_num booted (- 100000) 0b000101 =
     (Raised (ValueError ''Value out of range''), booted\<lparr>spi := spi booted @ [(9, 0xFF)]\<rparr>)
   \<and> current_num (snd (write_num booted (- 100000) 0b000101)) = None
   \<and> current_dp (snd (write_num booted (- 100000) 0b000101)) = 0"
  using write_num_out_of_range[of "- 100000" "0b000101" booted]
  by (simp add: booted_eq)

text \<open>
  The claim as it is written fails: \<open>write_num(1000000)\<close> raises, but the bus has received
  the decode-mode frame by then.
\<close>

theorem write_num_out_of_range_counterexample:
  "fst (write_num booted 1000000 0) = Raised (ValueError ''Value out of range'')
   \<and> spi (snd (write_num booted 1000000 0)) = spi booted @ [(DECODE_MODE, 0xFF)]
   \<and> spi (snd (write_num booted 1000000 0)) \<noteq> spi booted"
  by (simp add: write_num_def register_ok)

subsection \<open>Brightness\<close>

text \<open>
  Claim C10. \<open>display_brightness(value)\<close> writes one frame, to the intensity register,
  when \<open>0 \<le> value \<le> 15\<close>, and returns; for every other value it raises \<open>ValueError\<close>
  and the state, the bus included, is what it was.
\<close>

theorem display_brightness_frames:
  "display_brightness s value =
     (if 0 \<le> value \<and> value \<le> 15
      then (Returned, s\<lparr>cs := True, spi := spi s @ [(INTENSITY, value)]\<rparr>)
      else (Raised (ValueError ''Brightness out of range''), s))"
  by (simp add: display_brightness_def register_ok)

theorem display_brightness_frames_witness:
  "display_brightness booted 5 = (Returned, booted\<lparr>spi := spi booted @ [(10, 5)]\<rparr>)
   \<and> display_brightness booted 16 = (Raised (ValueError ''Brightness out of range''), booted)
   \<and> display_brightness booted (- 1) = (Raised (ValueError ''Brightness out of range''), booted)"
  using display_brightness_frames[of booted 5] display_brightness_frames[of booted 16]
    display_brightness_frames[of booted "- 1"]
  by (simp add: booted_eq)

subsection \<open>Hexadecimal writes, increment and decrement\<close>

lemma HEX_TO_SEG_lt16:
  assumes "0 \<le> k" "k < 16"
  shows "\<exists>seg. HEX_TO_SEG k = Some seg \<and> 0 \<le> seg \<and> seg < 256"
proof -
  from assms have "k = 0 \<or> k = 1 \<or> k = 2 \<or> k = 3 \<or> k = 4 \<or> k = 5 \<or> k = 6 \<or> k = 7
      \<or> k = 8 \<or> k = 9 \<or> k = 10 \<or> k = 11 \<or> k = 12 \<or> k = 13 \<or> k = 14 \<or> k = 15"
    by arith
  then show ?thesis by (auto simp: HEX_TO_SEG_def)
qed

lemma div_pow16_Suc: "(v::int) div 16 ^ j div 16 = v div 16 ^ Suc j"
proof -
  have "v div 16 ^ Suc j = v div (16 ^ j * 16)" by (simp add: mult.commute)
  also have "\<dots> = v div 16 ^ j div 16" by (rule zdiv_zmult2_eq) simp
  finally show ?thesis by simp
qed

lemma write_hex_digits_upt:
  "n \<le> 6 \<Longrightarrow>
   write_hex_digits [j..<n] (value div 16 ^ j) s =
     (Returned, s\<lparr>cs := (if j < n then True else cs s),
        spi := spi s @ map (\<lambda>i. (int i + 1, the (HEX_TO_SEG (value div 16 ^ i mod 16)))) [j..<n]\<rparr>)"
proof (induction "n - j" arbitrary: j s)
  case 0
  then show ?case by simp
next
  case (Suc k)
  then have jn: "j < n" and j6: "j < 6" by auto
  have k: "k = n - Suc j" using Suc by auto
  obtain seg where seg: "HEX_TO_SEG (value div 16 ^ j mod 16) = Some seg" "0 \<le> seg" "seg < 256"
    using HEX_TO_SEG_lt16[of "value div 16 ^ j mod 16"] by auto
  show ?case
    using Suc.hyps(1)[OF k Suc.prems, of "s\<lparr>cs := True, spi := spi s @ [(int j + 1, seg)]\<rparr>"]
    using jn j6 seg
    apply (subst upt_conv_Cons[OF jn])
    apply (subst upt_conv_Cons[OF jn])
    apply (simp only: write_hex_digits.simps DIGIT_DICT_lt6[OF j6] option.case div_pow16_Suc)
    apply (auto simp: register_ok)
    done
qed

lemma write_hex_eq:
  assumes "0 \<le> value" "value \<le> 0xFFFFFF"
  shows "write_hex s value =
      (Returned, s\<lparr>cs := True, spi := spi s @ (DECODE_MODE, 0x0) #
          map (\<lambda>i. (int i + 1, the (HEX_TO_SEG (value div 16 ^ i mod 16)))) [0..<6],
          current_num := Some value\<rparr>)"
  using assms write_hex_digits_upt[of 6 0 "value"]
  by (simp add: write_hex_def register_ok del: upt_Suc)

text \<open>
  Claim C4. With a stored mask within bounds: \<open>increment_num\<close> on the stored value
  999999 (decimal) or \<open>0xFFFFFF\<close> (\<open>hex=True\<close>) first stores \<open>-1\<close> and then writes
  \<open>-1 + 1\<close>, and \<open>decrement_num\<close> on the stored value -99999 (decimal) or 0
  (\<open>hex=True\<close>) first stores 1 and then writes \<open>1 - 1\<close>. Each of the four calls returns,
  the stored number is 0 afterwards, and the frames written are those of the number 0:
  six digits 0 with the points of the stored mask, or six times the segment pattern of 0.
\<close>

theorem wrap_at_bounds:
  assumes "0 \<le> current_dp s" "current_dp s \<le> 0b111111"
  shows "(current_num s = Some MAX_VALUE_DEC \<longrightarrow>
            increment_num s False = write_num (s\<lparr>current_num := Some (- 1)\<rparr>) (- 1 + 1) (current_dp s)
          \<and> increment_num s False =
              (Returned, s\<lparr>cs := True,
                 spi := spi s @ (DECODE_MODE, 0xFF) #
                        map (\<lambda>i. (int i + 1, if bit (current_dp s) i then DP else 0)) [0..<6],
                 current_num := Some 0\<rparr>))
       \<and> (current_num s = Some MAX_VALUE_HEX \<longrightarrow>
            increment_num s True = write_hex (s\<lparr>current_num := Some (- 1)\<rparr>) (- 1 + 1)
          \<and> increment_num s True =
              (Returned, s\<lparr>cs := True,
                 spi := spi s @ (DECODE_MODE, 0x0) # map (\<lambda>i. (int i + 1, 0b1111110)) [0..<6],
                 current_num := Some 0\<rparr>))
       \<and> (current_num s = Some MIN_VALUE_DEC \<longrightarrow>
            decrement_num s False = write_num (s\<lparr>current_num := Some 1\<rparr>) (1 - 1) (current_dp s)
          \<and> decrement_num s False =
              (Returned, s\<lparr>cs := True,
                 spi := spi s @ (DECODE_MODE, 0xFF) #
                        map (\<lambda>i. (int i + 1, if bit (current_dp s) i then DP else 0)) [0..<6],
                 current_num := Some 0\<rparr>))
       \<and> (current_num s = Some MIN_VALUE_HEX \<longrightarrow>
            decrement_num s True = write_hex (s\<lparr>current_num := Some 1\<rparr>) (1 - 1)
          \<and> decrement_num s True =
              (Returned, s\<lparr>cs := True,
                 spi := spi s @ (DECODE_MODE, 0x0) # map (\<lambda>i. (int i + 1, 0b1111110)) [0..<6],
                 current_num := Some 0\<rparr>))"
proof -
  have dec0: "write_num s' 0 (current_dp s) =
      (Returned, s'\<lparr>cs := True,
         spi := spi s' @ (DECODE_MODE, 0xFF) #
                map (\<lambda>i. (int i + 1, if bit (current_dp s) i then DP else 0)) [0..<6],
         current_num := Some 0, current_dp := current_dp s\<rparr>)" for s'
    using write_num_nonneg_eq[of 0 "current_dp s" s'] assms by simp
  have hex0: "write_hex s' 0 =
      (Returned, s'\<lparr>cs := True,
         spi := spi s' @ (DECODE_MODE, 0x0) # map (\<lambda>i. (int i + 1, 0b1111110)) [0..<6],
         current_num := Some 0\<rparr>)" for s'
    using write_hex_eq[of 0 s'] by (simp add: HEX_TO_SEG_def)
  have inc_dec: "current_num s = Some MAX_VALUE_DEC \<Longrightarrow>
      increment_num s False = write_num (s\<lparr>current_num := Some (- 1)\<rparr>) (- 1 + 1) (current_dp s)"
    by (simp add: increment_num_def)
  have inc_hex: "current_num s = Some MAX_VALUE_HEX \<Longrightarrow>
      increment_num s True = write_hex (s\<lparr>current_num := Some (- 1)\<rparr>) (- 1 + 1)"
    by (simp add: increment_num_def)
  have dec_dec: "current_num s = Some MIN_VALUE_DEC \<Longrightarrow>
      decrement_num s False = write_num (s\<lparr>current_num := Some 1\<rparr>) (1 - 1) (current_dp s)"
    by (simp add: decrement_num_def)
  have dec_hex: "current_num s = Some MIN_VALUE_HEX \<Longrightarrow>
      decrement_num s True = write_hex (s\<lparr>current_num := Some 1\<rparr>) (1 - 1)"
    by (simp add: decrement_num_def)
  show ?thesis
  proof (intro conjI impI)
    assume a: "current_num s = Some MAX_VALUE_DEC"
    show "increment_num s False = write_num (s\<lparr>current_num := Some (- 1)\<rparr>) (- 1 + 1) (current_dp s)"
      by (rule inc_dec[OF a])
    show "increment_num s False =
              (Returned, s\<lparr>cs := True,
                 spi := spi s @ (DECODE_MODE, 0xFF) #
                        map (\<lambda>i. (int i + 1, if bit (current_dp s) i then DP else 0)) [0..<6],
                 current_num := Some 0\<rparr>)"
      using inc_dec[OF a] dec0[of "s\<lparr>current_num := Some (- 1)\<rparr>"] by simp
  next
    assume a: "current_num s = Some MAX_VALUE_HEX"
    show "increment_num s True = write_hex (s\<lparr>current_num := Some (- 1)\<rparr>) (- 1 + 1)"
      by (rule inc_hex[OF a])
    show "increment_num s True =
              (Returned, s\<lparr>cs := True,
                 spi := spi s @ (DECODE_MODE, 0x0) # map (\<lambda>i. (int i + 1, 0b1111110)) [0..<6],
                 current_num := Some 0\<rparr>)"
      using inc_hex[OF a] hex0[of "s\<lparr>current_num := Some (- 1)\<rparr>"] by simp
  next
    assume a: "current_num s = Some MIN_VALUE_DEC"
    show "decrement_num s False = write_num (s\<lparr>current_num := Some 1\<rparr>) (1 - 1) (current_dp s)"
      by (rule dec_dec[OF a])
    show "decrement_num s False =
              (Returned, s\<lparr>cs := True,
                 spi := spi s @ (DECODE_MODE, 0xFF) #
                        map (\<lambda>i. (int i + 1, if bit (current_dp s) i then DP else 0)) [0..<6],
                 current_num := Some 0\<rparr>)"
      using dec_dec[OF a] dec0[of "s\<lparr>current_num := Some 1\<rparr>"] by simp
  next
    assume a: "current_num s = Some MIN_VALUE_HEX"
    show "decrement_num s True = write_hex (s\<lparr>current_num := Some 1\<rparr>) (1 - 1)"
      by (rule dec_hex[OF a])
    show "decrement_num s True =
              (Returned, s\<lparr>cs := True,
                 spi := spi s @ (DECODE_MODE, 0x0) # map (\<lambda>i. (int i + 1, 0b1111110)) [0..<6],
                 current_num := Some 0\<rparr>)"
      using dec_hex[OF a] hex0[of "s\<lparr>current_num := Some 1\<rparr>"] by simp
  qed
qed

text \<open>
  The four wraps on the device of the examples, each after the write that stores the
  bound: 999999 with a point at position 2, \<open>0xFFFFFF\<close>, -99999 and \<open>0x000000\<close>.
\<close>

theorem wrap_at_bounds_witness:
  "increment_num (snd (write_num booted 999999 0b000100)) False =
     (Returned, booted\<lparr>
        spi := spi booted
          @ [(9, 0xFF), (1, 9), (2, 9), (3, 0x89), (4, 9), (5, 9), (6, 9)]
          @ [(9, 0xFF), (1, 0), (2, 0), (3, 0x80), (4, 0), (5, 0), (6, 0)],
        current_num := Some 0, current_dp := 0b000100\<rparr>)
   \<and> increment_num (snd (write_hex booted 0xFFFFFF)) True =
     (Returned, booted\<lparr>
        spi := spi booted
          @ [(9, 0), (1, 0x47), (2, 0x47), (3, 0x47), (4, 0x47), (5, 0x47), (6, 0x47)]
          @ [(9, 0), (1, 0x7E), (2, 0x7E), (3, 0x7E), (4, 0x7E), (5, 0x7E), (6, 0x7E)],
        current_num := Some 0\<rparr>)
   \<and> decrement_num (snd (write_num booted (- 99999) 0)) False =
     (Returned, booted\<lparr>
        spi := spi booted
          @ [(9, 0xFF), (6, 0xA), (1, 9), (2, 9), (3, 9), (4, 9), (5, 9)]
          @ [(9, 0xFF), (1, 0), (2, 0), (3, 0), (4, 0), (5, 0), (6, 0)],
        current_num := Some 0\<rparr>)
   \<and> decrement_num (snd (write_hex booted 0x000000)) True =
     (Returned, booted\<lparr>
        spi := spi booted
          @ [(9, 0), (1, 0x7E), (2, 0x7E), (3, 0x7E), (4, 0x7E), (5, 0x7E), (6, 0x7E)]
          @ [(9, 0), (1, 0x7E), (2, 0x7E), (3, 0x7E), (4, 0x7E), (5, 0x7E), (6, 0x7E)],
        current_num := Some 0\<rparr>)"
proof -
  have s1: "write_num booted 999999 0b000100 =
      (Returned, booted\<lparr>spi := spi booted
          @ [(9, 0xFF), (1, 9), (2, 9), (3, 0x89), (4, 9), (5, 9), (6, 9)],
        current_num := Some 999999, current_dp := 0b000100\<rparr>)"
    using write_num_nonneg_eq[of 999999 "0b000100" booted]
    by (simp add: upt_6 bit_numeral_simps booted_eq)
  have s2: "write_hex booted 0xFFFFFF =
      (Returned, booted\<lparr>spi := spi booted
          @ [(9, 0), (1, 0x47), (2, 0x47), (3, 0x47), (4, 0x47), (5, 0x47), (6, 0x47)],
        current_num := Some 0xFFFFFF\<rparr>)"
    using write_hex_eq[of "0xFFFFFF" booted]
    by (simp add: upt_6 HEX_TO_SEG_def booted_eq)
  have s3: "write_num booted (- 99999) 0 =
      (Returned, booted\<lparr>spi := spi booted
          @ [(9, 0xFF), (6, 0xA), (1, 9), (2, 9), (3, 9), (4, 9), (5, 9)],
        current_num := Some (- 99999)\<rparr>)"
    using write_num_negative_eq[of "- 99999" 0 booted]
    by (simp add: upt_5 booted_eq)
  have s4: "write_hex booted 0x000000 =
      (Returned, booted\<lparr>spi := spi booted
          @ [(9, 0), (1, 0x7E), (2, 0x7E), (3, 0x7E), (4, 0x7E), (5, 0x7E), (6, 0x7E)],
        current_num := Some 0\<rparr>)"
    using write_hex_eq[of 0 booted]
    by (simp add: upt_6 HEX_TO_SEG_def booted_eq)
  let ?s1 = "booted\<lparr>spi := spi booted
          @ [(9, 0xFF), (1, 9), (2, 9), (3, 0x89), (4, 9), (5, 9), (6, 9)],
        current_num := Some 999999, current_dp := 0b000100\<rparr>"
  let ?s2 = "booted\<lparr>spi := spi booted
          @ [(9, 0), (1, 0x47), (2, 0x47), (3, 0x47), (4, 0x47), (5, 0x47), (6, 0x47)],
        current_num := Some 0xFFFFFF\<rparr>"
  let ?s3 = "booted\<lparr>spi := spi booted
          @ [(9, 0xFF), (6, 0xA), (1, 9), (2, 9), (3, 9), (4, 9), (5, 9)],
        current_num := Some (- 99999)\<rparr>"
  let ?s4 = "booted\<lparr>spi := spi booted
          @ [(9, 0), (1, 0x7E), (2, 0x7E), (3, 0x7E), (4, 0x7E), (5, 0x7E), (6, 0x7E)],
        current_num := Some 0\<rparr>"
  have h1: "0 \<le> current_dp ?s1" "current_dp ?s1 \<le> 0b111111" "current_num ?s1 = Some MAX_VALUE_DEC"
    by simp_all
  have h2: "0 \<le> current_dp ?s2" "current_dp ?s2 \<le> 0b111111" "current_num ?s2 = Some MAX_VALUE_HEX"
    by (simp_all add: booted_eq)
  have h3: "0 \<le> current_dp ?s3" "current_dp ?s3 \<le> 0b111111" "current_num ?s3 = Some MIN_VALUE_DEC"
    by (simp_all add: booted_eq)
  have h4: "0 \<le> current_dp ?s4" "current_dp ?s4 \<le> 0b111111" "current_num ?s4 = Some MIN_VALUE_HEX"
    by (simp_all add: booted_eq)
  from wrap_at_bounds[OF h1(1,2)] h1(3)
  have r1: "increment_num ?s1 False =
              (Returned, ?s1\<lparr>cs := True,
                 spi := spi ?s1 @ (DECODE_MODE, 0xFF) #
                        map (\<lambda>i. (int i + 1, if bit (current_dp ?s1) i then DP else 0)) [0..<6],
                 current_num := Some 0\<rparr>)"
    by blast
  from wrap_at_bounds[OF h2(1,2)] h2(3)
  have r2: "increment_num ?s2 True =
              (Returned, ?s2\<lparr>cs := True,
                 spi := spi ?s2 @ (DECODE_MODE, 0x0) # map (\<lambda>i. (int i + 1, 0b1111110)) [0..<6],
                 current_num := Some 0\<rparr>)"
    by blast
  from wrap_at_bounds[OF h3(1,2)] h3(3)
  have r3: "decrement_num ?s3 False =
              (Returned, ?s3\<lparr>cs := True,
                 spi := spi ?s3 @ (DECODE_MODE, 0xFF) #
                        map (\<lambda>i. (int i + 1, if bit (current_dp ?s3) i then DP else 0)) [0..<6],
                 current_num := Some 0\<rparr>)"
    by blast
  from wrap_at_bounds[OF h4(1,2)] h4(3)
  have r4: "decrement_num ?s4 True =
              (Returned, ?s4\<lparr>cs := True,
                 spi := spi ?s4 @ (DECODE_MODE, 0x0) # map (\<lambda>i. (int i + 1, 0b1111110)) [0..<6],
                 current_num := Some 0\<rparr>)"
    by blast
  show ?thesis
    unfolding s1 s2 s3 s4 snd_conv r1 r2 r3 r4
    by (simp add: upt_6 bit_numeral_simps booted_eq)
qed

text \<open>
  Claim C9. For every value in \<open>[0, 0xFFFFFF]\<close>, \<open>write_hex\<close> returns and stores the
  value, and the stored mask is what it was. The decimal \<open>increment_num\<close> and
  \<open>decrement_num\<close> that follow hand this stored mask to \<open>write_num\<close>. When the state
  before \<open>write_hex\<close> is one that a call \<open>write_num(v0, dp0)\<close> returned, the stored mask
  is \<open>dp0\<close> before and after \<open>write_hex\<close>; the increment then returns, keeps \<open>dp0\<close>
  stored, and its six digit frames carry the points of \<open>dp0\<close>.
\<close>

theorem write_hex_keeps_dp:
  assumes "0 \<le> value" "value \<le> 0xFFFFFF"
  shows "\<exists>s'. write_hex s value = (Returned, s')
           \<and> current_num s' = Some value
           \<and> current_dp s' = current_dp s
           \<and> increment_num s' False =
               write_num (s'\<lparr>current_num := Some (if value + 1 > MAX_VALUE_DEC then - 1 else value)\<rparr>)
                 ((if value + 1 > MAX_VALUE_DEC then - 1 else value) + 1) (current_dp s)
           \<and> decrement_num s' False = write_num s' (value - 1) (current_dp s)
           \<and> (\<forall>s0 v0 dp0. write_num s0 v0 dp0 = (Returned, s) \<longrightarrow>
                 current_dp s' = dp0
               \<and> (\<exists>s''. increment_num s' False = (Returned, s'')
                     \<and> current_dp s'' = dp0
                     \<and> (\<forall>i<6. (snd (spi s'' ! (length (spi s') + 1 + i)) AND DP \<noteq> 0) = bit dp0 i)))"
proof -
  let ?s' = "s\<lparr>cs := True, spi := spi s @ (DECODE_MODE, 0x0) #
          map (\<lambda>i. (int i + 1, the (HEX_TO_SEG (value div 16 ^ i mod 16)))) [0..<6],
          current_num := Some value\<rparr>"
  let ?n = "if value + 1 > MAX_VALUE_DEC then - 1 else value"
  have hex: "write_hex s value = (Returned, ?s')"
    by (rule write_hex_eq[OF assms])
  have num: "current_num ?s' = Some value" and dp: "current_dp ?s' = current_dp s"
    by simp_all
  have inc: "increment_num ?s' False =
               write_num (?s'\<lparr>current_num := Some ?n\<rparr>) (?n + 1) (current_dp s)"
    by (simp add: increment_num_def Let_def)
  have same: "?s'\<lparr>current_num := Some value\<rparr> = ?s'" by simp
  have dec: "decrement_num ?s' False = write_num ?s' (value - 1) (current_dp s)"
    using assms(1) by (simp add: decrement_num_def Let_def)
  have seq: "current_dp ?s' = dp0
               \<and> (\<exists>s''. increment_num ?s' False = (Returned, s'')
                     \<and> current_dp s'' = dp0
                     \<and> (\<forall>i<6. (snd (spi s'' ! (length (spi ?s') + 1 + i)) AND DP \<noteq> 0) = bit dp0 i))"
    if w: "write_num s0 v0 dp0 = (Returned, s)" for s0 v0 dp0
  proof -
    from write_num_Returned_dp[OF w]
    have dp0: "0 \<le> dp0" "dp0 \<le> 0b111111" "current_dp s = dp0" by simp_all
    have n: "0 \<le> ?n + 1" "?n + 1 \<le> 999999" using assms by auto
    let ?frames = "map (\<lambda>i. (int i + 1,
                 if bit dp0 i then (?n + 1) div 10 ^ i mod 10 OR DP else (?n + 1) div 10 ^ i mod 10)) [0..<6]"
    let ?t = "?s'\<lparr>current_num := Some ?n\<rparr>"
    let ?s'' = "?t\<lparr>cs := True, spi := spi ?t @ (DECODE_MODE, 0xFF) # ?frames,
                   current_num := Some (?n + 1), current_dp := dp0\<rparr>"
    have run: "increment_num ?s' False = (Returned, ?s'')"
      unfolding inc dp0(3) by (rule write_num_nonneg_eq[OF n dp0(1,2)])
    have nth: "spi ?s'' ! (length (spi ?s') + 1 + i) = ?frames ! i" for i
    proof -
      have e: "spi ?s'' = (spi ?s' @ [(DECODE_MODE, 0xFF)]) @ ?frames" by simp
      have l: "length (spi ?s') + 1 + i = length (spi ?s' @ [(DECODE_MODE, 0xFF)]) + i" by simp
      show ?thesis unfolding e l by (rule nth_append_length_plus)
    qed
    have flags: "\<forall>i<6. (snd (spi ?s'' ! (length (spi ?s') + 1 + i)) AND DP \<noteq> 0) = bit dp0 i"
      unfolding nth using frames_flag[of _ 6 dp0 "?n + 1"] by (intro allI impI)
    have d'': "current_dp ?s'' = dp0" by simp
    have "\<exists>s''. increment_num ?s' False = (Returned, s'')
                     \<and> current_dp s'' = dp0
                     \<and> (\<forall>i<6. (snd (spi s'' ! (length (spi ?s') + 1 + i)) AND DP \<noteq> 0) = bit dp0 i)"
      by (rule exI[of _ ?s''], intro conjI) (rule run d'' flags)+
    moreover have "current_dp ?s' = dp0" using dp dp0(3) by simp
    ultimately show ?thesis by (rule conjI[rotated])
  qed
  show ?thesis
  proof (rule exI[of _ ?s'], intro conjI allI impI)
    show "write_hex s value = (Returned, ?s')" by (rule hex)
    show "current_num ?s' = Some value" by (rule num)
    show "current_dp ?s' = current_dp s" by (rule dp)
    show "increment_num ?s' False =
               write_num (?s'\<lparr>current_num := Some ?n\<rparr>) (?n + 1) (current_dp s)"
      by (rule inc)
    show "decrement_num ?s' False = write_num ?s' (value - 1) (current_dp s)" by (rule dec)
  next
    fix s0 v0 dp0 assume w: "write_num s0 v0 dp0 = (Returned, s)"
    show "current_dp ?s' = dp0" using seq[OF w] by (rule conjunct1)
    show "\<exists>s''. increment_num ?s' False = (Returned, s'')
                     \<and> current_dp s'' = dp0
                     \<and> (\<forall>i<6. (snd (spi s'' ! (length (spi ?s') + 1 + i)) AND DP \<noteq> 0) = bit dp0 i)"
      using seq[OF w] by (rule conjunct2)
  qed
qed

text \<open>
  The sequence \<open>write_num(41, 0b000100)\<close>, \<open>write_hex(0xAB)\<close>, \<open>increment_num()\<close> on the
  device of the examples: the display ends with 172 and the point of the first write at
  position 2.
\<close>

theorem write_hex_keeps_dp_witness:
  "current_dp (snd (write_hex (snd (write_num booted 41 0b000100)) 0xAB)) = 0b000100
   \<and> increment_num (snd (write_hex (snd (write_num booted 41 0b000100)) 0xAB)) False =
     (Returned, booted\<lparr>
        spi := spi booted
          @ [(9, 0xFF), (1, 1), (2, 4), (3, 0x80), (4, 0), (5, 0), (6, 0)]
          @ [(9, 0), (1, 0x1F), (2, 0x77), (3, 0x7E), (4, 0x7E), (5, 0x7E), (6, 0x7E)]
          @ [(9, 0xFF), (1, 2), (2, 7), (3, 0x81), (4, 0), (5, 0), (6, 0)],
        current_num := Some 172, current_dp := 0b000100\<rparr>)"
proof -
  let ?s1 = "booted\<lparr>spi := spi booted
          @ [(9, 0xFF), (1, 1), (2, 4), (3, 0x80), (4, 0), (5, 0), (6, 0)],
        current_num := Some 41, current_dp := 0b000100\<rparr>"
  let ?s2 = "booted\<lparr>spi := spi booted
          @ [(9, 0xFF), (1, 1), (2, 4), (3, 0x80), (4, 0), (5, 0), (6, 0)]
          @ [(9, 0), (1, 0x1F), (2, 0x77), (3, 0x7E), (4, 0x7E), (5, 0x7E), (6, 0x7E)],
        current_num := Some 0xAB, current_dp := 0b000100\<rparr>"
  have s1: "write_num booted 41 0b000100 = (Returned, ?s1)"
    using write_num_nonneg_eq[of 41 "0b000100" booted]
    by (simp add: upt_6 bit_numeral_simps booted_eq)
  have s2: "write_hex ?s1 0xAB = (Returned, ?s2)"
    using write_hex_eq[of "0xAB" ?s1]
    by (simp add: upt_6 HEX_TO_SEG_def booted_eq)
  have r: "0 \<le> (0xAB::int)" "(0xAB::int) \<le> 0xFFFFFF" by simp_all
  from write_hex_keeps_dp[OF r, of ?s1] obtain s' where
    h: "write_hex ?s1 0xAB = (Returned, s')" "current_dp s' = current_dp ?s1"
       "increment_num s' False =
               write_num (s'\<lparr>current_num := Some (if 0xAB + 1 > MAX_VALUE_DEC then - 1 else 0xAB)\<rparr>)
                 ((if 0xAB + 1 > MAX_VALUE_DEC then - 1 else 0xAB) + 1) (current_dp ?s1)"
    by blast
  from h(1) s2 have s': "s' = ?s2" by simp
  have inc: "increment_num ?s2 False = write_num (?s2\<lparr>current_num := Some 0xAB\<rparr>) 172 0b000100"
    using h(3) unfolding s' by simp
  have w: "write_num (?s2\<lparr>current_num := Some 0xAB\<rparr>) 172 0b000100 =
     (Returned, booted\<lparr>
        spi := spi booted
          @ [(9, 0xFF), (1, 1), (2, 4), (3, 0x80), (4, 0), (5, 0), (6, 0)]
          @ [(9, 0), (1, 0x1F), (2, 0x77), (3, 0x7E), (4, 0x7E), (5, 0x7E), (6, 0x7E)]
          @ [(9, 0xFF), (1, 2), (2, 7), (3, 0x81), (4, 0), (5, 0), (6, 0)],
        current_num := Some 172, current_dp := 0b000100\<rparr>)"
    using write_num_nonneg_eq[of 172 "0b000100" "?s2\<lparr>current_num := Some 0xAB\<rparr>"]
    by (simp add: upt_6 bit_numeral_simps booted_eq)
  have d: "current_dp ?s2 = 0b000100" by simp
  show ?thesis
    unfolding s1 snd_conv s2 inc w d by simp
qed

subsection \<open>The clock\<close>

declare str_nat.simps [simp del]

lemma nat_digit_cases:
  "k < 10 \<Longrightarrow> k = 0 \<or> k = 1 \<or> k = 2 \<or> k = 3 \<or> k = 4 \<or> k = 5 \<or> k = 6 \<or> k = 7 \<or> k = 8 \<or> k = (9::nat)"
  by arith

lemma digit_val_digit_char: "k < 10 \<Longrightarrow> digit_val (digit_char k) = Some k"
  by (drule nat_digit_cases) (auto simp: digit_val_def digit_char_def)

lemma digit_char_not_sign: "k < 10 \<Longrightarrow> digit_char k \<noteq> CHR ''-'' \<and> digit_char k \<noteq> CHR ''+''"
  by (drule nat_digit_cases) (auto simp: digit_char_def)

lemma str_nat_one_digit: "n < 10 \<Longrightarrow> str_nat n = [digit_char n]"
  by (subst str_nat.simps) simp

lemma str_nat_two_digits:
  "10 \<le> n \<Longrightarrow> n < 100 \<Longrightarrow> str_nat n = [digit_char (n div 10), digit_char (n mod 10)]"
  by (subst str_nat.simps) (simp add: str_nat_one_digit)

text \<open>A field below 100, with the ''0'' that is put before it when it is below 10, is two digits.\<close>

lemma two_digits:
  assumes "0 \<le> n" "n < 100"
  shows "(if n < 10 then text @ ''0'' else text) @ str n
         = text @ [digit_char (nat n div 10), digit_char (nat n mod 10)]"
proof (cases "n < 10")
  case True
  with assms have "nat n < 10" "nat n div 10 = 0" "nat n mod 10 = nat n" by auto
  with True assms show ?thesis
    by (simp add: str_def str_nat_one_digit digit_char_def)
next
  case False
  with assms have "10 \<le> nat n" "nat n < 100" by auto
  with False assms show ?thesis
    by (simp add: str_def str_nat_two_digits)
qed

lemma clock24_str_digits:
  assumes "0 \<le> h" "h < 100" "0 \<le> m" "m < 100" "0 \<le> sec" "sec < 100"
  shows "clock24_str h m sec =
           [digit_char (nat h div 10), digit_char (nat h mod 10),
            digit_char (nat m div 10), digit_char (nat m mod 10),
            digit_char (nat sec div 10), digit_char (nat sec mod 10)]"
  unfolding clock24_str_def Let_def
    two_digits[OF assms(1,2)] two_digits[OF assms(3,4)] two_digits[OF assms(5,6)]
  by simp

lemma int_of_str_six_digits:
  assumes "a < 10" "b < 10" "c < 10" "d < 10" "e < 10" "f < 10"
  shows "int_of_str [digit_char a, digit_char b, digit_char c, digit_char d, digit_char e, digit_char f]
         = Some (int (((((a * 10 + b) * 10 + c) * 10 + d) * 10 + e) * 10 + f))"
  using assms digit_char_not_sign[OF assms(1)]
  by (simp add: int_of_str_def digit_val_digit_char)

lemma clock24_value:
  assumes "0 \<le> h" "h < 100" "0 \<le> m" "m < 100" "0 \<le> sec" "sec < 100"
  shows "int_of_str (clock24_str h m sec) = Some (h * 10000 + m * 100 + sec)"
proof -
  have lt: "nat h div 10 < 10" "nat h mod 10 < 10" "nat m div 10 < 10" "nat m mod 10 < 10"
    "nat sec div 10 < 10" "nat sec mod 10 < 10"
    using assms by auto
  have "int (((((nat h div 10 * 10 + nat h mod 10) * 10 + nat m div 10) * 10 + nat m mod 10) * 10
           + nat sec div 10) * 10 + nat sec mod 10)
        = int ((nat h * 100 + nat m) * 100 + nat sec)"
    by (simp add: algebra_simps)
  also have "\<dots> = h * 10000 + m * 100 + sec"
    using assms by simp
  finally show ?thesis
    unfolding clock24_str_digits[OF assms] int_of_str_six_digits[OF lt] by simp
qed

text \<open>
  Claim C6. For a clock that reads hours in \<open>[0, 23]\<close>, minutes in \<open>[0, 59]\<close> and seconds
  in \<open>[0, 59]\<close>, the string that \<open>_update_clock24\<close> builds is six characters, two decimal
  digits per field in the order hours, minutes, seconds, the first a 0 for a field below
  10; \<open>int\<close> reads it as \<open>hours * 10000 + minutes * 100 + seconds\<close>, and the call is
  \<open>write_num\<close> of this number with the mask \<open>0b010100\<close>.
\<close>

theorem update_clock24_hhmmss:
  assumes "0 \<le> hours (rtc s)" "hours (rtc s) \<le> 23"
    and "0 \<le> minutes (rtc s)" "minutes (rtc s) \<le> 59"
    and "0 \<le> seconds (rtc s)" "seconds (rtc s) \<le> 59"
  shows "let h = hours (rtc s); m = minutes (rtc s); sec = seconds (rtc s) in
           clock24_str h m sec =
             [digit_char (nat h div 10), digit_char (nat h mod 10),
              digit_char (nat m div 10), digit_char (nat m mod 10),
              digit_char (nat sec div 10), digit_char (nat sec mod 10)]
         \<and> length (clock24_str h m sec) = 6
         \<and> int_of_str (clock24_str h m sec) = Some (h * 10000 + m * 100 + sec)
         \<and> update_clock24 s = write_num s (h * 10000 + m * 100 + sec) 0b010100"
proof -
  have b: "0 \<le> hours (rtc s)" "hours (rtc s) < 100" "0 \<le> minutes (rtc s)" "minutes (rtc s) < 100"
    "0 \<le> seconds (rtc s)" "seconds (rtc s) < 100"
    using assms by simp_all
  show ?thesis
    unfolding Let_def
    using clock24_str_digits[OF b] clock24_value[OF b]
    by (simp add: update_clock24_def Let_def)
qed

text \<open>The clock of the examples reads 07:05:09: the string is 070509 and the number 70509.\<close>

theorem update_clock24_hhmmss_witness:
  "clock24_str 7 5 9 = ''070509''
   \<and> int_of_str ''070509'' = Some 70509
   \<and> update_clock24 booted =
     (Returned, booted\<lparr>
        spi := spi booted @ [(9, 0xFF), (1, 9), (2, 0), (3, 0x85), (4, 0), (5, 0x87), (6, 0)],
        current_num := Some 70509, current_dp := 0b010100\<rparr>)"
proof -
  have w: "write_num booted 70509 0b010100 =
     (Returned, booted\<lparr>
        spi := spi booted @ [(9, 0xFF), (1, 9), (2, 0), (3, 0x85), (4, 0), (5, 0x87), (6, 0)],
        current_num := Some 70509, current_dp := 0b010100\<rparr>)"
    using write_num_nonneg_eq[of 70509 "0b010100" booted]
    by (simp add: upt_6 bit_numeral_simps booted_eq)
  have t: "hours (rtc booted) = 7" "minutes (rtc booted) = 5" "seconds (rtc booted) = 9"
    by (simp_all add: booted_eq)
  from update_clock24_hhmmss[of booted]
  have "clock24_str 7 5 9 = [digit_char 0, digit_char 7, digit_char 0, digit_char 5, digit_char 0, digit_char 9]
         \<and> int_of_str (clock24_str 7 5 9) = Some 70509
         \<and> update_clock24 booted = write_num booted 70509 0b010100"
    unfolding t Let_def by auto
  then show ?thesis
    unfolding w by (simp add: digit_char_def int_of_str_def digit_val_def)
qed

subsection \<open>The beeper\<close>

lemma play_note_eq:
  "play_note s freq duration =
     s\<lparr>timers := (timers s)
        (2 \<mapsto> \<lparr>mode = PERIODIC, rate = Freq freq, callback = Beeper_callback\<rparr>,
         0 \<mapsto> \<lparr>mode = ONE_SHOT, rate = Period duration, callback = Deinit_beeper_timer\<rparr>)\<rparr>"
  by (simp add: play_note_def timer_init_def)

text \<open>
  Claim C7, on the code. \<open>play_note(440, 500)\<close> on the device of the examples, whose
  beeper pin is at 1, the level \<open>atlas.py\<close> sets at start-up and in \<open>stop_note\<close>. The tone
  timer fires once and the pin goes to 0; then the duration timer fires: both timers are
  disarmed, and the pin is still at 0, not at its idle level. \<open>stop_note\<close> from the same
  state does set the pin to 1.
\<close>

theorem duration_timer_leaves_pin:
  "beeper booted = True
   \<and> timers (play_note booted 440 500) 2
       = Some \<lparr>mode = PERIODIC, rate = Freq 440, callback = Beeper_callback\<rparr>
   \<and> timers (play_note booted 440 500) 0
       = Some \<lparr>mode = ONE_SHOT, rate = Period 500, callback = Deinit_beeper_timer\<rparr>
   \<and> beeper (timer_fire 2 (play_note booted 440 500)) = False
   \<and> timers (timer_fire 0 (timer_fire 2 (play_note booted 440 500))) 2 = None
   \<and> timers (timer_fire 0 (timer_fire 2 (play_note booted 440 500))) 0 = None
   \<and> beeper (timer_fire 0 (timer_fire 2 (play_note booted 440 500))) = False
   \<and> beeper (stop_note (timer_fire 2 (play_note booted 440 500))) = True"
  by (simp add: play_note_eq timer_fire_def timer_deinit_def beeper_callback_def stop_note_def
      booted_eq)

text \<open>The firing of the duration timer never writes the pin, whatever its level is.\<close>

lemma duration_timer_keeps_pin:
  assumes "timers s 0 = Some \<lparr>mode = ONE_SHOT, rate = Period duration, callback = Deinit_beeper_timer\<rparr>"
  shows "timer_fire 0 s = s\<lparr>timers := (timers s)(0 := None, 2 := None)\<rparr>"
    and "beeper (timer_fire 0 s) = beeper s"
  using assms by (simp_all add: timer_fire_def timer_deinit_def)

text \<open>
  The calls of \<open>play_song\<close>: one per pair; the song is over when the last call has
  returned; and every call after the first finds the tone timer armed with the frequency
  of the pair before it and the duration timer armed with its duration, not yet fired.
\<close>

lemma play_song_calls_length: "length (play_song_calls s song) = length song"
  by (induction song arbitrary: s) simp_all

lemma play_song_after_last_call:
  "song \<noteq> [] \<Longrightarrow>
   play_song s song = play_note (last (play_song_calls s song)) (fst (last song)) (snd (last song))"
proof (induction song arbitrary: s)
  case Nil
  then show ?case by simp
next
  case (Cons a song)
  show ?case
  proof (cases "song = []")
    case True
    then show ?thesis by simp
  next
    case False
    then have "play_song_calls (play_note s (fst a) (snd a)) song \<noteq> []"
      using play_song_calls_length[of "play_note s (fst a) (snd a)" song] by auto
    with False Cons.IH[OF False, of "play_note s (fst a) (snd a)"] show ?thesis by simp
  qed
qed

lemma play_song_calls_armed:
  "Suc i < length song \<Longrightarrow>
   timers (play_song_calls s song ! Suc i) 2
     = Some \<lparr>mode = PERIODIC, rate = Freq (fst (song ! i)), callback = Beeper_callback\<rparr>
   \<and> timers (play_song_calls s song ! Suc i) 0
     = Some \<lparr>mode = ONE_SHOT, rate = Period (snd (song ! i)), callback = Deinit_beeper_timer\<rparr>"
proof (induction song arbitrary: s i)
  case Nil
  then show ?case by simp
next
  case (Cons a song)
  then obtain b rest where song: "song = b # rest" by (cases song) auto
  show ?case
  proof (cases i)
    case 0
    then show ?thesis by (simp add: song play_note_eq)
  next
    case (Suc j)
    with Cons.prems have "Suc j < length song" by simp
    from Cons.IH[OF this, of "play_note s (fst a) (snd a)"] Suc show ?thesis by simp
  qed
qed

text \<open>
  Claim C8, on the code. \<open>play_song\<close> of the two pairs \<open>(440, 500)\<close> and \<open>(880, 250)\<close>
  on the device of the examples makes two calls of \<open>play_note\<close>. The second is made in
  the state that the first returned: the tone timer is armed with 440 and the duration
  timer of 500 is armed and has not fired, so the first tone has not completed when the
  second is requested. When \<open>play_song\<close> returns, the tone timer is armed with 880.
\<close>

theorem play_song_calls_second_note:
  "play_song_calls booted [(440, 500), (880, 250)] = [booted, play_note booted 440 500]
   \<and> timers (play_song_calls booted [(440, 500), (880, 250)] ! 1) 2
       = Some \<lparr>mode = PERIODIC, rate = Freq 440, callback = Beeper_callback\<rparr>
   \<and> timers (play_song_calls booted [(440, 500), (880, 250)] ! 1) 0
       = Some \<lparr>mode = ONE_SHOT, rate = Period 500, callback = Deinit_beeper_timer\<rparr>
   \<and> play_song booted [(440, 500), (880, 250)] = play_note (play_note booted 440 500) 880 250
   \<and> timers (play_song booted [(440, 500), (880, 250)]) 2
       = Some \<lparr>mode = PERIODIC, rate = Freq 880, callback = Beeper_callback\<rparr>"
  by (simp add: play_note_eq)

subsection \<open>Debouncing\<close>

text \<open>
  The loop makes two readings per pass: at most \<open>2 * DEBOUNCE_SAMPLES = 64\<close> in all. On
  a button that shows one level at every reading the result is the negation of this level.
\<close>

lemma debounce_loop_reads: "snd (debounce_loop n button k flag) \<le> k + 2 * n"
proof (induction n arbitrary: k flag)
  case 0
  show ?case by simp
next
  case (Suc n)
  show ?case
  proof (cases "button (k + 1)")
    case True
    then show ?thesis by simp
  next
    case False
    have "snd (debounce_loop n button (k + 2) (button k)) \<le> k + 2 + 2 * n"
      by (rule Suc.IH)
    with False show ?thesis by simp
  qed
qed

lemma debounce_reads_bound: "snd (debounce button) \<le> 64"
  using debounce_loop_reads[of DEBOUNCE_SAMPLES button 0 False]
  by (simp add: debounce_def DEBOUNCE_SAMPLES_def)

lemma debounce_loop_steady:
  "\<forall>k. button k = level \<Longrightarrow>
   fst (debounce_loop n button k flag) = (if n = 0 then \<not> flag else \<not> level)"
  by (induction n arbitrary: k flag) (auto simp: Let_def)

lemma debounce_steady: "\<forall>k. button k = level \<Longrightarrow> fst (debounce button) = (\<not> level)"
  using debounce_loop_steady[of button level DEBOUNCE_SAMPLES 0 False]
  by (simp add: debounce_def DEBOUNCE_SAMPLES_def)

text \<open>
  Claim C3, on the code. Three buttons: one whose second reading is high and every other
  low, one that is always low, and one that is high at every even reading and low at
  every odd one. For the first \<open>_debounce\<close> returns \<open>True\<close> after two readings, though a
  reading was high; for the second and the third it takes 64 readings; for the third it
  returns \<open>False\<close>, though the last reading is low.
\<close>

theorem debounce_reads_twice:
  "debounce (\<lambda>k. k = 1) = (True, 2)
   \<and> debounce (\<lambda>k. False) = (True, 64)
   \<and> debounce even = (False, 64)"
  by code_simp

end
